theory Spec2Isabelle
  imports Main "HOL-Library.Word"
begin

unbundle bit_operations_syntax

section \<open>Field validators of the provider (google/validation.go)\<close>

text \<open>
  The file defines validators of configuration values. Each has the shape
  \<^verbatim>\<open>func(v interface{}, k string) (ws []string, errors []error)\<close>.
  The schema engine hands a validator the value of a string field, so the value
  is modelled as a \<open>string\<close>: the type assertion \<^verbatim>\<open>v.(string)\<close> succeeds.
  A Go string is a sequence of bytes and \<^verbatim>\<open>len\<close> counts bytes; \<open>string\<close> is a
  list of 8-bit characters, so \<open>length\<close> is Go's \<^verbatim>\<open>len\<close>.
  The \<^verbatim>\<open>int\<close> parameters are modelled as \<open>int\<close>: the code only compares them
  and subtracts 2 from values that are at least 2, which cannot overflow.
\<close>

subsection \<open>Regular expressions (package regexp)\<close>

text \<open>
  The patterns of this file use a small part of the RE2 syntax: the anchors
  \<^verbatim>\<open>^\<close> and \<^verbatim>\<open>$\<close> (without the flag m: beginning and end of the text), character
  classes of ASCII ranges, the counted repetition \<^verbatim>\<open>{m,n}\<close> of a class, the
  optional group \<^verbatim>\<open>(?:r)?\<close> and concatenation. A pattern is modelled by its
  syntax tree; the group \<^verbatim>\<open>(?:r)\<close> leaves no node, as in regexp/syntax.
  A class is the list of its ranges; a single character \<open>c\<close> is the range \<open>(c, c)\<close>.

  A tree stands for the pattern text that writes it out: \<open>BeginText\<close> is \<^verbatim>\<open>^\<close>,
  \<open>EndText\<close> is \<^verbatim>\<open>$\<close>, \<open>CharClass cs\<close> is the ranges of \<open>cs\<close> in order between
  \<^verbatim>\<open>[\<close> and \<^verbatim>\<open>]\<close> (a range \<open>(a, b)\<close> as \<^verbatim>\<open>a-b\<close>, every character escaped where
  the syntax asks for it), \<open>Repeat cs m n\<close> is that class followed by \<^verbatim>\<open>{m,n}\<close>,
  \<open>Quest r\<close> is \<^verbatim>\<open>(?:r)?\<close> and \<open>Cat\<close> is juxtaposition.
\<close>

type_synonym crange = "char \<times> char"

datatype regex =
    BeginText
  | EndText
  | CharClass "crange list"
  | Repeat "crange list" nat nat
  | Quest regex
  | Cat regex regex

definition in_range :: "char \<Rightarrow> crange \<Rightarrow> bool" where
  "in_range c r = ((of_char (fst r) :: nat) \<le> of_char c \<and> (of_char c :: nat) \<le> of_char (snd r))"

definition in_class :: "crange list \<Rightarrow> char \<Rightarrow> bool" where
  "in_class cs c = list_ex (in_range c) cs"

text \<open>
  What regexp/syntax (Go 1.10) rejects in such a pattern:
  \<^item> a class with a reversed range such as \<^verbatim>\<open>[z-a]\<close> (error "invalid character
    class range"), and the class without ranges, whose text \<^verbatim>\<open>[]\<close> has no closing
    bracket (error "missing closing ]");
  \<^item> a counted repetition whose minimum or maximum is above 1000, the
    implementation restriction that the package documents, or whose minimum is
    above its maximum (error "invalid repeat count").
  \<^verbatim>\<open>regexp.MustCompile\<close> panics on a pattern that does not parse.
\<close>

definition valid_range :: "crange \<Rightarrow> bool" where
  "valid_range r = ((of_char (fst r) :: nat) \<le> of_char (snd r))"

definition valid_class :: "crange list \<Rightarrow> bool" where
  "valid_class cs = (cs \<noteq> [] \<and> list_all valid_range cs)"

fun parses :: "regex \<Rightarrow> bool" where
  "parses BeginText = True"
| "parses EndText = True"
| "parses (CharClass cs) = valid_class cs"
| "parses (Repeat cs m n) = (valid_class cs \<and> \<not> (m > 1000 \<or> n > 1000 \<or> m > n))"
| "parses (Quest r) = parses r"
| "parses (Cat r1 r2) = (parses r1 \<and> parses r2)"

datatype panic = InvalidRegexp regex | NilDereference

definition MustCompile :: "regex \<Rightarrow> panic + regex" where
  "MustCompile re = (if parses re then Inr re else Inl (InvalidRegexp re))"

text \<open>
  Matching. The matcher compares bytes, which is the matching of the package
  when the classes are ASCII, as all classes of this file are. A cursor is the
  offset from the beginning of the text and the text that remains. \<open>run r p\<close> lists the cursors at which a match of \<open>r\<close> that
  starts at \<open>p\<close> can end, the preferred (greedy) one first.
\<close>

type_synonym cursor = "nat \<times> string"

fun run :: "regex \<Rightarrow> cursor \<Rightarrow> cursor list" where
  "run BeginText (i, s) = (if i = 0 then [(i, s)] else [])"
| "run EndText (i, s) = (if s = [] then [(i, s)] else [])"
| "run (CharClass cs) (i, s) =
     (case s of [] \<Rightarrow> [] | c # t \<Rightarrow> if in_class cs c then [(Suc i, t)] else [])"
| "run (Repeat cs m n) (i, s) =
     (let l = length (takeWhile (in_class cs) s)
      in map (\<lambda>k. (i + k, drop k s)) (rev [m ..< Suc (min n l)]))"
| "run (Quest r) p = run r p @ [p]"
| "run (Cat r1 r2) p = concat (map (run r2) (run r1 p))"

text \<open>
  \<^verbatim>\<open>(*Regexp).MatchString\<close> reports whether the text contains a match: the
  match may start at any offset.
\<close>

definition MatchString :: "regex \<Rightarrow> string \<Rightarrow> bool" where
  "MatchString re s = list_ex (\<lambda>i. run re (i, drop i s) \<noteq> []) [0 ..< Suc (length s)]"

subsection \<open>Errors and results\<close>

text \<open>
  One constructor for each \<^verbatim>\<open>fmt.Errorf\<close> of the file, with the arguments of
  the format; \<open>LibraryError\<close> is an error made by a library validator.
\<close>

datatype ParseError = ParseError string string

datatype error =
    ErrNoMatch string string regex
  | ErrNotRFC1918 string string
  | ErrTimeFormat string string
  | ErrTimeHour string string
  | ErrTimeMinute string string
  | ErrMinAtLeast2 int
  | ErrMaxGreaterMin int int
  | ErrNotIPCIDR string ParseError
  | ErrGoogPrefix string string
  | LibraryError string

type_synonym result = "panic + string list \<times> error list"

type_synonym SchemaValidateFunc = "string \<Rightarrow> string \<Rightarrow> result"

subsection \<open>validateRegexp and validateGCPName\<close>

definition validateRegexp :: "regex \<Rightarrow> SchemaValidateFunc" where
  "validateRegexp re v k =
     (case MustCompile re of
        Inl p \<Rightarrow> Inl p
      | Inr c \<Rightarrow>
          if \<not> MatchString c v then Inr ([], [] @ [ErrNoMatch k v re])
          else Inr ([], []))"

definition lower :: "crange" where "lower = (CHR ''a'', CHR ''z'')"
definition upper :: "crange" where "upper = (CHR ''A'', CHR ''Z'')"
definition digit :: "crange" where "digit = (CHR ''0'', CHR ''9'')"
definition single :: "char \<Rightarrow> crange" where "single c = (c, c)"

text \<open>\<^verbatim>\<open>^(?:[a-z](?:[-a-z0-9]{0,61}[a-z0-9])?)$\<close>\<close>

definition GCPNameRegex :: regex where
  "GCPNameRegex =
     Cat BeginText
       (Cat (Cat (CharClass [lower])
                 (Quest (Cat (Repeat [single CHR ''-'', lower, digit] 0 61)
                             (CharClass [lower, digit]))))
            EndText)"

definition validateGCPName :: SchemaValidateFunc where
  "validateGCPName v k = validateRegexp GCPNameRegex v k"

subsection \<open>validateRFC1035Name\<close>

text \<open>
  \<^verbatim>\<open>RFC1035NameTemplate = "[a-z](?:[-a-z0-9]{%d,%d}[a-z0-9])"\<close>, with the two
  counts that \<^verbatim>\<open>fmt.Sprintf\<close> prints into it. The file instantiates it with counts
  that are not negative only.
\<close>

definition RFC1035NameTemplate :: "int \<Rightarrow> int \<Rightarrow> regex" where
  "RFC1035NameTemplate a b =
     Cat (CharClass [lower])
         (Cat (Repeat [single CHR ''-'', lower, digit] (nat a) (nat b))
              (CharClass [lower, digit]))"

definition validateRFC1035Name :: "int \<Rightarrow> int \<Rightarrow> SchemaValidateFunc" where
  "validateRFC1035Name min' max' =
     (if min' < 2 \<or> max' < min' then
        (\<lambda>i k.
           let errors = [];
               errors = (if min' < 2 then errors @ [ErrMinAtLeast2 min'] else errors);
               errors = (if max' < min' then errors @ [ErrMaxGreaterMin min' max'] else errors)
           in Inr ([], errors))
      else
        validateRegexp (Cat BeginText (Cat (RFC1035NameTemplate (min' - 2) (max' - 2)) EndText)))"

subsection \<open>validateCloudIoTID\<close>

text \<open>\<^verbatim>\<open>CloudIoTIdRegex = "^[a-zA-Z][-a-zA-Z0-9._+~%]{2,254}$"\<close>\<close>

definition CloudIoTIdRegex :: regex where
  "CloudIoTIdRegex =
     Cat BeginText
       (Cat (CharClass [lower, upper])
            (Cat (Repeat [single CHR ''-'', lower, upper, digit, single CHR ''.'', single CHR ''_'',
                          single CHR ''+'', single CHR ''~'', single CHR ''%''] 2 254)
                 EndText))"

text \<open>\<^verbatim>\<open>strings.HasPrefix\<close>\<close>

definition HasPrefix :: "string \<Rightarrow> string \<Rightarrow> bool" where
  "HasPrefix s pre = (length s \<ge> length pre \<and> take (length pre) s = pre)"

definition validateCloudIoTID :: SchemaValidateFunc where
  "validateCloudIoTID v k =
     (let errors = [];
          errors = (if HasPrefix v ''goog'' then errors @ [ErrGoogPrefix k v] else errors)
      in case MustCompile CloudIoTIdRegex of
           Inl p \<Rightarrow> Inl p
         | Inr c \<Rightarrow>
             if \<not> MatchString c v then Inr ([], errors @ [ErrNoMatch k v CloudIoTIdRegex])
             else Inr ([], errors))"

subsection \<open>validateRFC3339Time\<close>

definition is_digit :: "char \<Rightarrow> bool" where
  "is_digit c = ((48::nat) \<le> of_char c \<and> (of_char c :: nat) \<le> 57)"

definition digit_val :: "char \<Rightarrow> nat" where
  "digit_val c = of_char c - 48"

text \<open>
  \<^verbatim>\<open>strconv.ParseUint(s, 10, 0)\<close>: the empty string and a string with a byte that
  is not a decimal digit are syntax errors, a value above the largest unsigned
  integer (64 bits) is a range error. \<open>None\<close> stands for \<^verbatim>\<open>err != nil\<close>.
\<close>

fun ParseUint_from :: "nat \<Rightarrow> string \<Rightarrow> nat option" where
  "ParseUint_from n [] = Some n"
| "ParseUint_from n (d # s) =
     (if is_digit d then
        (let n1 = n * 10 + digit_val d
         in if n1 > 2 ^ 64 - 1 then None else ParseUint_from n1 s)
      else None)"

definition ParseUint :: "string \<Rightarrow> nat option" where
  "ParseUint s = (if length s = 0 then None else ParseUint_from 0 s)"

definition validateRFC3339Time :: SchemaValidateFunc where
  "validateRFC3339Time time k =
     (if length time \<noteq> 5 \<or> time ! 2 \<noteq> CHR '':'' then Inr ([], [ErrTimeFormat k time])
      else
        (case ParseUint (take 2 time) of
           None \<Rightarrow> Inr ([], [ErrTimeHour k time])
         | Some hour \<Rightarrow>
             if hour > 23 then Inr ([], [ErrTimeHour k time])
             else
               (case ParseUint (drop 3 time) of
                  None \<Rightarrow> Inr ([], [ErrTimeMinute k time])
                | Some minute \<Rightarrow>
                    if minute > 59 then Inr ([], [ErrTimeMinute k time])
                    else Inr ([], []))))"

subsection \<open>IP addresses and networks (package net)\<close>

text \<open>
  \<^verbatim>\<open>net.IP\<close> and \<^verbatim>\<open>net.IPMask\<close> are byte slices; the nil slice is the empty
  list. \<^verbatim>\<open>net.IPNet\<close> is a struct of the two. The functions below follow the
  package as it was when the file was written (Go 1.10).
\<close>

type_synonym byte = "8 word"
type_synonym IP = "byte list"
type_synonym IPMask = "byte list"

record IPNet =
  IP :: IP
  Mask :: IPMask

definition IPv4len :: nat where "IPv4len = 4"
definition IPv6len :: nat where "IPv6len = 16"

definition v4InV6Prefix :: "byte list" where
  "v4InV6Prefix = [0, 0, 0, 0, 0, 0, 0, 0, 0, 0, 0xff, 0xff]"

definition IPv4 :: "byte \<Rightarrow> byte \<Rightarrow> byte \<Rightarrow> byte \<Rightarrow> IP" where
  "IPv4 a b c d = v4InV6Prefix @ [a, b, c, d]"

definition To4 :: "IP \<Rightarrow> IP" where
  "To4 ip =
     (if length ip = IPv4len then ip
      else if length ip = IPv6len \<and> list_all (\<lambda>b. b = 0) (take 10 ip)
              \<and> ip ! 10 = 0xff \<and> ip ! 11 = 0xff
      then drop 12 ip
      else [])"

text \<open>\<^verbatim>\<open>dtoi\<close>: the decimal number at the start of the string, the count of
  bytes read, and whether a number below \<^verbatim>\<open>big = 0xFFFFFF\<close> was read.\<close>

definition big :: nat where "big = 0xFFFFFF"

fun dtoi_from :: "nat \<Rightarrow> nat \<Rightarrow> string \<Rightarrow> nat \<times> nat \<times> bool" where
  "dtoi_from n i [] = (if i = 0 then (0, 0, False) else (n, i, True))"
| "dtoi_from n i (c # s) =
     (if is_digit c then
        (let n1 = n * 10 + digit_val c
         in if n1 \<ge> big then (big, i, False) else dtoi_from n1 (Suc i) s)
      else if i = 0 then (0, 0, False) else (n, i, True))"

definition dtoi :: "string \<Rightarrow> nat \<times> nat \<times> bool" where
  "dtoi s = dtoi_from 0 0 s"

function parseIPv4_loop :: "nat \<Rightarrow> string \<Rightarrow> byte list \<Rightarrow> IP" where
  "parseIPv4_loop i s p =
     (if i < IPv4len then
        (if length s = 0 then []
         else if i > 0 \<and> hd s \<noteq> CHR ''.'' then []
         else
           (let s1 = (if i > 0 then tl s else s)
            in case dtoi s1 of (n, c, ok) \<Rightarrow>
                 if \<not> ok \<or> n > 0xFF then []
                 else parseIPv4_loop (i + 1) (drop c s1) (p[i := of_nat n])))
      else if length s \<noteq> 0 then []
      else IPv4 (p ! 0) (p ! 1) (p ! 2) (p ! 3))"
  by pat_completeness auto
termination
  by (relation "measure (\<lambda>(i, s, p). IPv4len - i)") (auto simp: IPv4len_def)

declare parseIPv4_loop.simps [simp del]

definition parseIPv4 :: "string \<Rightarrow> IP" where
  "parseIPv4 s = parseIPv4_loop 0 s [0, 0, 0, 0]"

fun CIDRMask_loop :: "nat \<Rightarrow> nat \<Rightarrow> byte list" where
  "CIDRMask_loop n 0 = []"
| "CIDRMask_loop n (Suc l) =
     (if n \<ge> 8 then 0xff # CIDRMask_loop (n - 8) l
      else NOT (drop_bit n 0xff) # CIDRMask_loop 0 l)"

definition CIDRMask :: "nat \<Rightarrow> nat \<Rightarrow> IPMask" where
  "CIDRMask ones bits =
     (if bits \<noteq> 8 * IPv4len \<and> bits \<noteq> 8 * IPv6len then []
      else if ones > bits then []
      else CIDRMask_loop ones (bits div 8))"

text \<open>The method \<^verbatim>\<open>(ip IP) Mask(mask IPMask) IP\<close>.\<close>

definition IP_Mask :: "IP \<Rightarrow> IPMask \<Rightarrow> IP" where
  "IP_Mask ip mask' =
     (let mask' = (if length mask' = IPv6len \<and> length ip = IPv4len
                     \<and> list_all (\<lambda>b. b = 0xff) (take 12 mask')
                  then drop 12 mask' else mask');
          ip = (if length mask' = IPv4len \<and> length ip = IPv6len \<and> take 12 ip = v4InV6Prefix
                then drop 12 ip else ip);
          n = length ip
      in if n \<noteq> length mask' then []
         else map (\<lambda>i. (ip ! i) AND (mask' ! i)) [0 ..< n])"

text \<open>
  \<^verbatim>\<open>net.ParseCIDR\<close>. The parser of the textual form of an IPv6 address is a
  parameter: \<open>parseIPv6 s\<close> is the address, or the nil slice.
\<close>

definition ParseCIDR :: "(string \<Rightarrow> IP) \<Rightarrow> string \<Rightarrow> ParseError + IP \<times> IPNet" where
  "ParseCIDR parseIPv6 s =
     (if CHR ''/'' \<notin> set s then Inl (ParseError ''CIDR address'' s)
      else
        (let i = length (takeWhile (\<lambda>c. c \<noteq> CHR ''/'') s);
             addr = take i s;
             mask' = drop (i + 1) s;
             ip4 = parseIPv4 addr;
             iplen = (if ip4 = [] then IPv6len else IPv4len);
             ip = (if ip4 = [] then parseIPv6 addr else ip4)
         in case dtoi mask' of (n, j, ok) \<Rightarrow>
              if ip = [] \<or> \<not> ok \<or> j \<noteq> length mask' \<or> n > 8 * iplen
              then Inl (ParseError ''CIDR address'' s)
              else (let m = CIDRMask n (8 * iplen)
                    in Inr (ip, \<lparr>IP = IP_Mask ip m, Mask = m\<rparr>))))"

definition networkNumberAndMask :: "IPNet \<Rightarrow> IP \<times> IPMask" where
  "networkNumberAndMask n =
     (let ip = To4 (IP n)
      in if ip = [] \<and> length (IP n) \<noteq> IPv6len then ([], [])
         else
           (let ip = (if ip = [] then IP n else ip)
            in if length (Mask n) = IPv4len then
                 (if length ip \<noteq> IPv4len then ([], []) else (ip, Mask n))
               else if length (Mask n) = IPv6len then
                 (if length ip = IPv4len then (ip, drop 12 (Mask n)) else (ip, Mask n))
               else ([], [])))"

definition Contains :: "IPNet \<Rightarrow> IP \<Rightarrow> bool" where
  "Contains n ip =
     (case networkNumberAndMask n of (nn, m) \<Rightarrow>
        (let ip = (if To4 ip \<noteq> [] then To4 ip else ip);
             l = length ip
         in if l \<noteq> length nn then False
            else list_all (\<lambda>i. (nn ! i) AND (m ! i) = (ip ! i) AND (m ! i)) [0 ..< l]))"

subsection \<open>validateIpCidrRange\<close>

definition validateIpCidrRange :: "(string \<Rightarrow> IP) \<Rightarrow> SchemaValidateFunc" where
  "validateIpCidrRange parseIPv6 v k =
     (case ParseCIDR parseIPv6 v of
        Inl err \<Rightarrow> Inr ([], [] @ [ErrNotIPCIDR k err])
      | Inr _ \<Rightarrow> Inr ([], []))"

subsection \<open>validateRFC1918Network\<close>

definition rfc1918Networks :: "string list" where
  "rfc1918Networks = [''10.0.0.0/8'', ''172.16.0.0/12'', ''192.168.0.0/16'']"

text \<open>
  The loop over \<^verbatim>\<open>rfc1918Networks\<close>: \<open>Inr True\<close> when a network contains the
  address (the early return), \<open>Inr False\<close> when the loop ends. A constant that
  did not parse would leave \<^verbatim>\<open>ipnet\<close> nil, and \<^verbatim>\<open>ipnet.Contains\<close> would panic.
\<close>

fun rfc1918_loop :: "(string \<Rightarrow> IP) \<Rightarrow> string list \<Rightarrow> IP \<Rightarrow> panic + bool" where
  "rfc1918_loop parseIPv6 [] ip = Inr False"
| "rfc1918_loop parseIPv6 (c # cs) ip =
     (case ParseCIDR parseIPv6 c of
        Inl _ \<Rightarrow> Inl NilDereference
      | Inr (_, ipnet) \<Rightarrow>
          if Contains ipnet ip then Inr True else rfc1918_loop parseIPv6 cs ip)"

text \<open>
  \<^verbatim>\<open>validation.CIDRNetwork\<close> belongs to the schema library, which is not part
  of the file: the function is the parameter \<open>cidrNetwork\<close>.
\<close>

type_synonym LibValidateFunc = "string \<Rightarrow> string \<Rightarrow> string list \<times> error list"

definition validateRFC1918Network ::
  "(int \<Rightarrow> int \<Rightarrow> LibValidateFunc) \<Rightarrow> (string \<Rightarrow> IP) \<Rightarrow> int \<Rightarrow> int \<Rightarrow> SchemaValidateFunc" where
  "validateRFC1918Network cidrNetwork parseIPv6 min' max' i k =
     (case cidrNetwork min' max' i k of (s, es) \<Rightarrow>
        if length es > 0 then Inr (s, es)
        else
          (let v = i;
               ip = (case ParseCIDR parseIPv6 v of Inl _ \<Rightarrow> [] | Inr (ip, _) \<Rightarrow> ip)
           in case rfc1918_loop parseIPv6 rfc1918Networks ip of
                Inl p \<Rightarrow> Inl p
              | Inr True \<Rightarrow> Inr (s, es)
              | Inr False \<Rightarrow> Inr (s, es @ [ErrNotRFC1918 k v])))"

text \<open>
  Modelled from the spec: \<^verbatim>\<open>validation.CIDRNetwork\<close> of the schema library, which
  is not under src/. Section 4.3, step 1: "parse value as address/prefixLength;
  fail with a descriptive error if unparsable or if prefixLength not in
  [min, max]". It is one instance of the parameter \<open>cidrNetwork\<close> of
  \<open>validateRFC1918Network\<close>.
\<close>

definition prefixLength :: "string \<Rightarrow> int" where
  "prefixLength v = int (fst (dtoi (drop (length (takeWhile (\<lambda>c. c \<noteq> CHR ''/'') v) + 1) v)))"

definition CIDRNetwork :: "(string \<Rightarrow> IP) \<Rightarrow> int \<Rightarrow> int \<Rightarrow> LibValidateFunc" where
  "CIDRNetwork parseIPv6 min' max' v k =
     (case ParseCIDR parseIPv6 v of
        Inl err \<Rightarrow> ([], [LibraryError ''expected a valid CIDR''])
      | Inr _ \<Rightarrow>
          if prefixLength v < min' \<or> prefixLength v > max'
          then ([], [LibraryError ''expected a network CIDR with significant bits in range''])
          else ([], []))"

section \<open>The properties, in the words of the specification\<close>

subsection \<open>Characters\<close>

definition lowercase_letter :: "char \<Rightarrow> bool" where
  "lowercase_letter c = (c \<in> set ''abcdefghijklmnopqrstuvwxyz'')"

definition uppercase_letter :: "char \<Rightarrow> bool" where
  "uppercase_letter c = (c \<in> set ''ABCDEFGHIJKLMNOPQRSTUVWXYZ'')"

definition letter :: "char \<Rightarrow> bool" where
  "letter c = (lowercase_letter c \<or> uppercase_letter c)"

definition decimal_digit :: "char \<Rightarrow> bool" where
  "decimal_digit c = (c \<in> set ''0123456789'')"

subsection \<open>Patterns that compile\<close>





subsection \<open>Names\<close>

text \<open>Interior characters of a name: lowercase letters, digits, hyphens.\<close>

definition name_interior :: "char \<Rightarrow> bool" where
  "name_interior c = (lowercase_letter c \<or> decimal_digit c \<or> c = CHR ''-'')"

definition name_last :: "char \<Rightarrow> bool" where
  "name_last c = (lowercase_letter c \<or> decimal_digit c)"

text \<open>
  A full match of \<^verbatim>\<open>^[a-z](?:[-a-z0-9]{0,61}[a-z0-9])?$\<close>: one lowercase letter,
  or a lowercase letter, at most 61 interior characters and a last character.
\<close>

definition gcp_name_shape :: "string \<Rightarrow> bool" where
  "gcp_name_shape s =
     (s \<noteq> [] \<and> lowercase_letter (hd s) \<and>
      (length s = 1 \<or>
       (length s \<le> 63 \<and> list_all name_interior (butlast (tl s)) \<and> name_last (last s))))"

text \<open>
  Section 4.2: total length between min and max characters, first character a
  lowercase letter, last character alphanumeric, interior characters lowercase
  letters, digits or hyphens.
\<close>

definition rfc1035_shape :: "int \<Rightarrow> int \<Rightarrow> string \<Rightarrow> bool" where
  "rfc1035_shape min' max' s =
     (min' \<le> int (length s) \<and> int (length s) \<le> max' \<and> 2 \<le> length s \<and>
      lowercase_letter (hd s) \<and> list_all name_interior (butlast (tl s)) \<and> name_last (last s))"

subsection \<open>Identifiers\<close>

text \<open>
  Section 4.6, as written: starts with a letter, 3 to 255 characters in total,
  the remaining characters from letters, digits and \<^verbatim>\<open>. _ + ~ %\<close>.
\<close>

definition id_rest_as_written :: "char \<Rightarrow> bool" where
  "id_rest_as_written c = (letter c \<or> decimal_digit c \<or> c \<in> set ''._+~%'')"

definition cloud_iot_shape_as_written :: "string \<Rightarrow> bool" where
  "cloud_iot_shape_as_written s =
     (3 \<le> length s \<and> length s \<le> 255 \<and> letter (hd s) \<and> list_all id_rest_as_written (tl s))"

text \<open>The same with the hyphen among the remaining characters.\<close>

definition id_rest :: "char \<Rightarrow> bool" where
  "id_rest c = (letter c \<or> decimal_digit c \<or> c \<in> set ''-._+~%'')"

definition cloud_iot_shape :: "string \<Rightarrow> bool" where
  "cloud_iot_shape s =
     (3 \<le> length s \<and> length s \<le> 255 \<and> letter (hd s) \<and> list_all id_rest (tl s))"

definition reserved_prefix :: "string \<Rightarrow> bool" where
  "reserved_prefix s = (take 4 s = ''goog'')"

subsection \<open>Time of day\<close>

text \<open>Section 4.4: the three conditions, in the order of the checks.\<close>

definition time_format :: "string \<Rightarrow> bool" where
  "time_format s = (length s = 5 \<and> s ! 2 = CHR '':'')"

definition two_digits :: "char \<Rightarrow> char \<Rightarrow> nat \<Rightarrow> bool" where
  "two_digits a b bound =
     (decimal_digit a \<and> decimal_digit b \<and> 10 * (of_char a - 48) + (of_char b - 48) \<le> bound)"

definition time_hour :: "string \<Rightarrow> bool" where
  "time_hour s = two_digits (s ! 0) (s ! 1) 23"

definition time_minute :: "string \<Rightarrow> bool" where
  "time_minute s = two_digits (s ! 3) (s ! 4) 59"

subsection \<open>Private networks\<close>

text \<open>
  The address portion of a value: the address that \<^verbatim>\<open>net.ParseCIDR\<close> returns,
  nil when the value does not parse.
\<close>

definition address :: "(string \<Rightarrow> IP) \<Rightarrow> string \<Rightarrow> IP" where
  "address parseIPv6 v = (case ParseCIDR parseIPv6 v of Inl _ \<Rightarrow> [] | Inr (ip, _) \<Rightarrow> ip)"

text \<open>
  An IPv4 address as a number of 32 bits; the address may be in the form of 4
  bytes or in the form of 16 bytes (IPv4 in IPv6). An address is inside the
  block \<open>base/bits\<close> when it agrees with \<open>base\<close> on the first \<open>bits\<close> bits.
\<close>

definition ipv4_number :: "nat list \<Rightarrow> nat" where
  "ipv4_number os = foldl (\<lambda>a b. a * 256 + b) 0 os"

definition inside_block :: "IP \<Rightarrow> nat list \<Rightarrow> nat \<Rightarrow> bool" where
  "inside_block ip base bits =
     (length (To4 ip) = 4 \<and>
      ipv4_number (map unat (To4 ip)) div 2 ^ (32 - bits) = ipv4_number base div 2 ^ (32 - bits))"

definition inside_rfc1918 :: "IP \<Rightarrow> bool" where
  "inside_rfc1918 ip =
     (inside_block ip [10, 0, 0, 0] 8 \<or> inside_block ip [172, 16, 0, 0] 12
      \<or> inside_block ip [192, 168, 0, 0] 16)"

section \<open>Proofs\<close>

subsection \<open>Character classes\<close>

lemma nat_range_cases: "(a::nat) \<le> n \<and> n \<le> b \<longleftrightarrow> n \<in> set [a ..< Suc b]"
  by auto

lemma char_eq_iff_nat: "c = d \<longleftrightarrow> (of_char c :: nat) = of_char d"
  by auto

lemma lower_iff: "in_range c lower \<longleftrightarrow> lowercase_letter c"
  unfolding in_range_def lower_def lowercase_letter_def fst_conv snd_conv
  by (subst nat_range_cases) (simp add: upt_rec char_eq_iff_nat[of c])

lemma upper_iff: "in_range c upper \<longleftrightarrow> uppercase_letter c"
  unfolding in_range_def upper_def uppercase_letter_def fst_conv snd_conv
  by (subst nat_range_cases) (simp add: upt_rec char_eq_iff_nat[of c])

lemma digit_iff: "in_range c digit \<longleftrightarrow> decimal_digit c"
  unfolding in_range_def digit_def decimal_digit_def fst_conv snd_conv
  by (subst nat_range_cases) (simp add: upt_rec char_eq_iff_nat[of c])

lemma is_digit_iff: "is_digit c \<longleftrightarrow> decimal_digit c"
  unfolding is_digit_def decimal_digit_def
  by (subst nat_range_cases) (simp add: upt_rec char_eq_iff_nat[of c])

lemma single_iff: "in_range c (single d) \<longleftrightarrow> c = d"
  by (auto simp: in_range_def single_def)

lemma in_class_Nil: "in_class [] c = False"
  by (simp add: in_class_def)

lemma in_class_Cons: "in_class (r # rs) c = (in_range c r \<or> in_class rs c)"
  by (simp add: in_class_def)

lemmas class_simps = in_class_Nil in_class_Cons lower_iff upper_iff digit_iff single_iff

lemma class_lower: "in_class [lower] c = lowercase_letter c"
  by (simp add: class_simps)

lemma class_letter: "in_class [lower, upper] c = letter c"
  by (simp add: class_simps letter_def)

lemma class_name_interior: "in_class [single CHR ''-'', lower, digit] c = name_interior c"
  by (auto simp: class_simps name_interior_def)

lemma class_name_last: "in_class [lower, digit] c = name_last c"
  by (simp add: class_simps name_last_def)

lemma class_id_rest:
  "in_class [single CHR ''-'', lower, upper, digit, single CHR ''.'', single CHR ''_'',
             single CHR ''+'', single CHR ''~'', single CHR ''%''] c = id_rest c"
  by (auto simp: class_simps id_rest_def letter_def)

subsection \<open>Matching\<close>

lemma run_CharClass_iff:
  "q \<in> set (run (CharClass cs) p) \<longleftrightarrow>
     (\<exists>c t. snd p = c # t \<and> in_class cs c \<and> q = (Suc (fst p), t))"
  by (cases p) (auto split: list.splits)

lemma le_takeWhile_iff:
  "k \<le> length (takeWhile P s) \<longleftrightarrow> k \<le> length s \<and> (\<forall>c \<in> set (take k s). P c)"
proof (induction s arbitrary: k)
  case Nil then show ?case by simp
next
  case (Cons a s)
  then show ?case by (cases k) auto
qed

lemma run_Repeat_iff:
  "q \<in> set (run (Repeat cs m n) p) \<longleftrightarrow>
     (\<exists>k. m \<le> k \<and> k \<le> n \<and> k \<le> length (snd p) \<and> (\<forall>c \<in> set (take k (snd p)). in_class cs c)
          \<and> q = (fst p + k, drop k (snd p)))"
proof -
  obtain i s where p: "p = (i, s)" by (cases p)
  have "set (run (Repeat cs m n) (i, s)) =
        (\<lambda>k. (i + k, drop k s)) ` {k. m \<le> k \<and> k \<le> n \<and> k \<le> length (takeWhile (in_class cs) s)}"
    by (auto simp: Let_def less_Suc_eq_le simp del: upt_Suc)
  then show ?thesis
    unfolding p by (auto simp: le_takeWhile_iff)
qed

lemma run_Cat_iff: "q \<in> set (run (Cat a b) p) \<longleftrightarrow> (\<exists>p'. p' \<in> set (run a p) \<and> q \<in> set (run b p'))"
  by auto

lemma run_Quest_iff: "q \<in> set (run (Quest r) p) \<longleftrightarrow> q \<in> set (run r p) \<or> q = p"
  by auto

lemma run_EndText_iff: "q \<in> set (run EndText p) \<longleftrightarrow> snd p = [] \<and> q = p"
  by (cases p) auto

lemma run_BeginText_iff: "q \<in> set (run BeginText p) \<longleftrightarrow> fst p = 0 \<and> q = p"
  by (cases p) auto

lemma MatchString_iff: "MatchString re s \<longleftrightarrow> (\<exists>i \<le> length s. \<exists>q. q \<in> set (run re (i, drop i s)))"
proof -
  have ne: "xs \<noteq> [] \<longleftrightarrow> (\<exists>q. q \<in> set xs)" for xs :: "cursor list"
    by (cases xs) auto
  show ?thesis
    unfolding MatchString_def list_ex_iff ne
    by (simp add: Bex_def less_Suc_eq_le del: upt_Suc)
qed

lemma MatchString_BeginText:
  "MatchString (Cat BeginText r) s \<longleftrightarrow> (\<exists>q. q \<in> set (run r (0, s)))"
  unfolding MatchString_iff run_Cat_iff run_BeginText_iff
  by (auto simp del: run.simps)

lemma run_Cat_EndText:
  "(\<exists>q. q \<in> set (run (Cat r EndText) p)) \<longleftrightarrow> (\<exists>j. (j, []) \<in> set (run r p))"
  unfolding run_Cat_iff run_EndText_iff by (auto simp del: run.simps)

lemma drop_eq_singleton:
  "drop k t = [c] \<longleftrightarrow> t \<noteq> [] \<and> k = length t - 1 \<and> c = last t"
proof
  assume h: "drop k t = [c]"
  then have l: "length t - k = 1" by (metis length_drop length_Cons list.size(3) One_nat_def)
  then have "t \<noteq> []" by auto
  moreover from l have "k = length t - 1" by arith
  moreover have "k < length t" using l by arith
  then have "last (drop k t) = last t" by (rule last_drop)
  with h have "c = last t" by simp
  ultimately show "t \<noteq> [] \<and> k = length t - 1 \<and> c = last t" by simp
next
  assume "t \<noteq> [] \<and> k = length t - 1 \<and> c = last t"
  then show "drop k t = [c]"
    by (metis append_butlast_last_id append_eq_conv_conj length_butlast)
qed

lemma repeat_then_last:
  "(\<exists>k. m \<le> k \<and> k \<le> n \<and> k \<le> length t \<and> (\<forall>x \<in> set (take k t). P x) \<and> (\<exists>c. drop k t = [c] \<and> Q c))
   \<longleftrightarrow> (t \<noteq> [] \<and> m \<le> length t - 1 \<and> length t - 1 \<le> n \<and> list_all P (butlast t) \<and> Q (last t))"
  by (auto simp: drop_eq_singleton butlast_conv_take list_all_iff)

lemma repeat_then_end:
  "(\<exists>k. m \<le> k \<and> k \<le> n \<and> k \<le> length t \<and> (\<forall>x \<in> set (take k t). P x) \<and> drop k t = [])
   \<longleftrightarrow> (m \<le> length t \<and> length t \<le> n \<and> list_all P t)"
  by (auto simp: list_all_iff)

lemma run_tail_iff:
  "(\<exists>j. (j, []) \<in> set (run (Cat (Repeat cs m n) (CharClass ds)) (i, t))) \<longleftrightarrow>
   (t \<noteq> [] \<and> m \<le> length t - 1 \<and> length t - 1 \<le> n \<and> list_all (in_class cs) (butlast t) \<and> in_class ds (last t))"
  unfolding repeat_then_last[symmetric] run_Cat_iff run_Repeat_iff run_CharClass_iff
  by (auto simp del: run.simps) metis

lemma run_end_iff:
  "(\<exists>j. (j, []) \<in> set (run (Repeat cs m n) (i, t))) \<longleftrightarrow>
   (m \<le> length t \<and> length t \<le> n \<and> list_all (in_class cs) t)"
  unfolding repeat_then_end[symmetric] run_Repeat_iff
  by (auto simp del: run.simps)

lemma GCPName_match: "MatchString GCPNameRegex s \<longleftrightarrow> gcp_name_shape s"
proof (cases s)
  case Nil
  then show ?thesis
    unfolding GCPNameRegex_def MatchString_BeginText run_Cat_EndText
    by (simp add: gcp_name_shape_def)
next
  case (Cons c t)
  have "MatchString GCPNameRegex s \<longleftrightarrow>
        lowercase_letter c \<and> ((\<exists>j. (j, []) \<in> set (run (Cat (Repeat [single CHR ''-'', lower, digit] 0 61)
                             (CharClass [lower, digit])) (Suc 0, t))) \<or> t = [])"
    unfolding GCPNameRegex_def MatchString_BeginText run_Cat_EndText
    unfolding run_Cat_iff[of _ "CharClass [lower]"] run_CharClass_iff run_Quest_iff Cons class_lower
    by (auto simp del: run.simps)
  also have "\<dots> \<longleftrightarrow> gcp_name_shape s"
    unfolding run_tail_iff class_name_interior class_name_last Cons gcp_name_shape_def
    by (cases t) (auto simp: class_name_interior class_name_last name_last_def)
  finally show ?thesis .
qed

lemma RFC1035_match:
  "MatchString (Cat BeginText (Cat (RFC1035NameTemplate a b) EndText)) s \<longleftrightarrow>
   (2 \<le> length s \<and> nat a \<le> length s - 2 \<and> length s - 2 \<le> nat b \<and>
    lowercase_letter (hd s) \<and> list_all name_interior (butlast (tl s)) \<and> name_last (last s))"
proof (cases s)
  case Nil
  then show ?thesis
    unfolding RFC1035NameTemplate_def MatchString_BeginText run_Cat_EndText
    by simp
next
  case (Cons c t)
  have "MatchString (Cat BeginText (Cat (RFC1035NameTemplate a b) EndText)) s \<longleftrightarrow>
        lowercase_letter c \<and> (\<exists>j. (j, []) \<in> set (run (Cat (Repeat [single CHR ''-'', lower, digit] (nat a) (nat b))
                             (CharClass [lower, digit])) (Suc 0, t)))"
    unfolding RFC1035NameTemplate_def MatchString_BeginText run_Cat_EndText
    unfolding run_Cat_iff[of _ "CharClass [lower]"] run_CharClass_iff Cons class_lower
    by (auto simp del: run.simps)
  also have "\<dots> \<longleftrightarrow> (2 \<le> length s \<and> nat a \<le> length s - 2 \<and> length s - 2 \<le> nat b \<and>
    lowercase_letter (hd s) \<and> list_all name_interior (butlast (tl s)) \<and> name_last (last s))"
    unfolding run_tail_iff class_name_interior class_name_last Cons
    by (cases t) (auto simp: class_name_interior class_name_last)
  finally show ?thesis .
qed

lemma CloudIoT_match: "MatchString CloudIoTIdRegex s \<longleftrightarrow> cloud_iot_shape s"
proof (cases s)
  case Nil
  then show ?thesis
    unfolding CloudIoTIdRegex_def MatchString_BeginText
    by (simp add: cloud_iot_shape_def)
next
  case (Cons c t)
  have e: "(\<exists>q. q \<in> set (run (Cat r EndText) p)) \<longleftrightarrow> (\<exists>j. (j, []) \<in> set (run r p))" for r p
    by (rule run_Cat_EndText)
  have "MatchString CloudIoTIdRegex s \<longleftrightarrow>
        letter c \<and> (\<exists>j. (j, []) \<in> set (run (Repeat [single CHR ''-'', lower, upper, digit, single CHR ''.'', single CHR ''_'',
                          single CHR ''+'', single CHR ''~'', single CHR ''%''] 2 254) (Suc 0, t)))"
    unfolding CloudIoTIdRegex_def MatchString_BeginText
    unfolding run_Cat_iff[of _ "CharClass [lower, upper]"] run_CharClass_iff Cons class_letter
    using e by (auto simp del: run.simps)
  also have "\<dots> \<longleftrightarrow> cloud_iot_shape s"
    unfolding run_end_iff Cons cloud_iot_shape_def
    by (auto simp: class_id_rest list_all_iff)
  finally show ?thesis .
qed

subsection \<open>The name validators\<close>

lemmas class_valid = valid_class_def valid_range_def lower_def upper_def digit_def single_def

lemma parses_GCPNameRegex: "parses GCPNameRegex"
  by (simp add: GCPNameRegex_def class_valid)

lemma parses_CloudIoTIdRegex: "parses CloudIoTIdRegex"
  by (simp add: CloudIoTIdRegex_def class_valid)

lemma parses_RFC1035:
  assumes "2 \<le> min'" "min' \<le> max'"
  shows "parses (Cat BeginText (Cat (RFC1035NameTemplate (min' - 2) (max' - 2)) EndText))
         \<longleftrightarrow> max' \<le> 1002"
  using assms by (auto simp: RFC1035NameTemplate_def class_valid)

lemma validateRegexp_parses:
  "parses re \<Longrightarrow>
   validateRegexp re v k = Inr ([], if MatchString re v then [] else [ErrNoMatch k v re])"
  by (simp add: validateRegexp_def MustCompile_def)

lemma validateRegexp_panics:
  "\<not> parses re \<Longrightarrow> validateRegexp re v k = Inl (InvalidRegexp re)"
  by (simp add: validateRegexp_def MustCompile_def)

text \<open>
  C8. The generic name validator returns no error for a string that matches
  \<^verbatim>\<open>^[a-z](?:[-a-z0-9]{0,61}[a-z0-9])?$\<close> in full, and for any other string exactly
  one error, which carries the field key, the value and the pattern.
\<close>

theorem validateGCPName_shape:
  "validateGCPName v k =
     Inr ([], if gcp_name_shape v then [] else [ErrNoMatch k v GCPNameRegex])"
  by (simp add: validateGCPName_def validateRegexp_parses parses_GCPNameRegex GCPName_match)

theorem validateGCPName_shape_witness:
  "validateGCPName ''my-instance-1'' ''name'' = Inr ([], [])
   \<and> validateGCPName ''a'' ''name'' = Inr ([], [])
   \<and> validateGCPName ''My-instance'' ''name'' = Inr ([], [ErrNoMatch ''name'' ''My-instance'' GCPNameRegex])
   \<and> validateGCPName ''abc-'' ''name'' = Inr ([], [ErrNoMatch ''name'' ''abc-'' GCPNameRegex])"
  using validateGCPName_shape [of "''my-instance-1''" "''name''"]
        validateGCPName_shape [of "''a''" "''name''"]
        validateGCPName_shape [of "''My-instance''" "''name''"]
        validateGCPName_shape [of "''abc-''" "''name''"]
  by (simp add: gcp_name_shape_def name_interior_def name_last_def lowercase_letter_def
        decimal_digit_def)

text \<open>
  C3, amended. For \<open>2 \<le> min \<le> max \<le> 1002\<close> the validator of
  \<open>validateRFC1035Name min max\<close> accepts a string exactly when its length is
  between min and max, its first character is a lowercase letter, its last
  character a lowercase letter or a digit and the characters between them
  lowercase letters, digits or hyphens; any other string gets exactly one
  error. For \<open>max > 1002\<close> the repetition count \<open>max - 2\<close> of the pattern is
  above 1000, the pattern does not compile and the validator panics.
\<close>

theorem validateRFC1035Name_shape:
  assumes "2 \<le> min'" and "min' \<le> max'"
  shows "validateRFC1035Name min' max' v k =
     (if max' \<le> 1002 then
        Inr ([], if rfc1035_shape min' max' v then []
                 else [ErrNoMatch k v (Cat BeginText (Cat (RFC1035NameTemplate (min' - 2) (max' - 2)) EndText))])
      else Inl (InvalidRegexp (Cat BeginText (Cat (RFC1035NameTemplate (min' - 2) (max' - 2)) EndText))))"
proof -
  let ?re = "Cat BeginText (Cat (RFC1035NameTemplate (min' - 2) (max' - 2)) EndText)"
  have v: "validateRFC1035Name min' max' v k = validateRegexp ?re v k"
    using assms by (simp add: validateRFC1035Name_def)
  show ?thesis
  proof (cases "max' \<le> 1002")
    case True
    then have p: "parses ?re" using parses_RFC1035 [OF assms] by simp
    have "MatchString ?re v \<longleftrightarrow> rfc1035_shape min' max' v"
      unfolding RFC1035_match rfc1035_shape_def using assms by auto
    then show ?thesis
      using True by (simp add: v validateRegexp_parses [OF p])
  next
    case False
    then have p: "\<not> parses ?re" using parses_RFC1035 [OF assms] by simp
    show ?thesis
      using False by (simp add: v validateRegexp_panics [OF p])
  qed
qed

theorem validateRFC1035Name_shape_witness:
  "(2::int) \<le> 4 \<and> (4::int) \<le> 28
   \<and> validateRFC1035Name 4 28 ''abcdef'' ''account_id'' = Inr ([], [])
   \<and> validateRFC1035Name 4 28 ''abc-def'' ''account_id'' = Inr ([], [])
   \<and> validateRFC1035Name 4 28 ''ab'' ''account_id'' =
       Inr ([], [ErrNoMatch ''account_id'' ''ab'' (Cat BeginText (Cat (RFC1035NameTemplate 2 26) EndText))])
   \<and> validateRFC1035Name 4 28 ''-abcdef'' ''account_id'' =
       Inr ([], [ErrNoMatch ''account_id'' ''-abcdef'' (Cat BeginText (Cat (RFC1035NameTemplate 2 26) EndText))])"
proof -
  have h: "(2::int) \<le> 4" "(4::int) \<le> 28" by simp_all
  show ?thesis
    using validateRFC1035Name_shape [OF h, of "''abcdef''" "''account_id''"]
          validateRFC1035Name_shape [OF h, of "''abc-def''" "''account_id''"]
          validateRFC1035Name_shape [OF h, of "''ab''" "''account_id''"]
          validateRFC1035Name_shape [OF h, of "''-abcdef''" "''account_id''"]
    by (simp add: rfc1035_shape_def name_interior_def name_last_def lowercase_letter_def
          decimal_digit_def)
qed

text \<open>
  C3 as written fails for \<open>max > 1002\<close>: the string \<^verbatim>\<open>ab\<close> has the shape that
  the bounds (2, 1003) ask for, and the validator does not accept it.
\<close>

theorem validateRFC1035Name_large_max_counterexample:
  "rfc1035_shape 2 1003 ''ab''
   \<and> validateRFC1035Name 2 1003 ''ab'' ''name'' =
       Inl (InvalidRegexp (Cat BeginText (Cat (RFC1035NameTemplate 0 1001) EndText)))"
  by (simp add: rfc1035_shape_def name_last_def lowercase_letter_def validateRFC1035Name_def
        validateRegexp_def MustCompile_def RFC1035NameTemplate_def class_valid)

text \<open>
  C4. With \<open>min < 2\<close> or \<open>max < min\<close> the validator returns, whatever the value
  and the key, the errors of the invalid bounds and nothing else: the error of
  the minimum when \<open>min < 2\<close>, then the error of the maximum when \<open>max < min\<close>.
  The list is not empty and does not depend on the value.
\<close>

theorem validateRFC1035Name_bad_bounds:
  assumes "min' < 2 \<or> max' < min'"
  shows "validateRFC1035Name min' max' v k =
           Inr ([], (if min' < 2 then [ErrMinAtLeast2 min'] else [])
                    @ (if max' < min' then [ErrMaxGreaterMin min' max'] else []))
         \<and> (if min' < 2 then [ErrMinAtLeast2 min'] else [])
             @ (if max' < min' then [ErrMaxGreaterMin min' max'] else []) \<noteq> []
         \<and> validateRFC1035Name min' max' v k = validateRFC1035Name min' max' v' k'"
  using assms by (auto simp: validateRFC1035Name_def)

theorem validateRFC1035Name_bad_bounds_witness:
  "validateRFC1035Name 1 28 ''abcdef'' ''name'' = Inr ([], [ErrMinAtLeast2 1])
   \<and> validateRFC1035Name 1 28 [] ''other'' = Inr ([], [ErrMinAtLeast2 1])
   \<and> validateRFC1035Name 6 3 ''abcdef'' ''name'' = Inr ([], [ErrMaxGreaterMin 6 3])
   \<and> validateRFC1035Name 1 0 ''abcdef'' ''name'' = Inr ([], [ErrMinAtLeast2 1, ErrMaxGreaterMin 1 0])"
proof -
  have a: "(1::int) < 2 \<or> (28::int) < 1" by simp
  have b: "(6::int) < 2 \<or> (3::int) < 6" by simp
  have c: "(1::int) < 2 \<or> (0::int) < 1" by simp
  show ?thesis
    using validateRFC1035Name_bad_bounds [OF a, of "''abcdef''" "''name''"]
          validateRFC1035Name_bad_bounds [OF a, of "[]" "''other''"]
          validateRFC1035Name_bad_bounds [OF b, of "''abcdef''" "''name''"]
          validateRFC1035Name_bad_bounds [OF c, of "''abcdef''" "''name''"]
    by simp
qed

subsection \<open>The identifier validator\<close>

lemma HasPrefix_goog: "HasPrefix v ''goog'' \<longleftrightarrow> reserved_prefix v"
proof -
  have l: "length ''goog'' = 4" by simp
  have "4 \<le> length v" if "take 4 v = ''goog''"
  proof -
    from that have "length (take 4 v) = 4" by simp
    then show ?thesis by simp
  qed
  then show ?thesis
    unfolding HasPrefix_def reserved_prefix_def l by auto
qed

lemma validateCloudIoTID_eq:
  "validateCloudIoTID v k =
     Inr ([], (if reserved_prefix v then [ErrGoogPrefix k v] else [])
              @ (if cloud_iot_shape v then [] else [ErrNoMatch k v CloudIoTIdRegex]))"
  by (simp add: validateCloudIoTID_def MustCompile_def parses_CloudIoTIdRegex CloudIoT_match
        HasPrefix_goog Let_def)

text \<open>
  C6. The check of the reserved prefix and the check of the shape both run for
  every value, and each adds its own error: the errors are the error of the
  prefix, when the value begins with \<^verbatim>\<open>goog\<close>, followed by the error of the
  shape, when the value does not match the pattern. So one violated rule gives
  one error and two violated rules give two.
\<close>

theorem validateCloudIoTID_independent:
  "\<exists>es. validateCloudIoTID v k = Inr ([], es)
      \<and> es = (if reserved_prefix v then [ErrGoogPrefix k v] else [])
             @ (if MatchString CloudIoTIdRegex v then [] else [ErrNoMatch k v CloudIoTIdRegex])
      \<and> length es = (if reserved_prefix v then 1 else 0)
                    + (if MatchString CloudIoTIdRegex v then 0 else 1)"
  by (simp add: validateCloudIoTID_eq CloudIoT_match)

theorem validateCloudIoTID_independent_witness:
  "validateCloudIoTID ''googDevice'' ''id'' = Inr ([], [ErrGoogPrefix ''id'' ''googDevice''])
   \<and> validateCloudIoTID ''1Device'' ''id'' = Inr ([], [ErrNoMatch ''id'' ''1Device'' CloudIoTIdRegex])
   \<and> validateCloudIoTID ''goog@'' ''id'' =
       Inr ([], [ErrGoogPrefix ''id'' ''goog@'', ErrNoMatch ''id'' ''goog@'' CloudIoTIdRegex])
   \<and> validateCloudIoTID ''Goog-device'' ''id'' = Inr ([], [])"
  using validateCloudIoTID_independent [of "''googDevice''" "''id''"]
        validateCloudIoTID_independent [of "''1Device''" "''id''"]
        validateCloudIoTID_independent [of "''goog@''" "''id''"]
        validateCloudIoTID_independent [of "''Goog-device''" "''id''"]
  by (simp add: CloudIoT_match cloud_iot_shape_def reserved_prefix_def id_rest_def letter_def
        lowercase_letter_def uppercase_letter_def decimal_digit_def)

text \<open>
  C7, amended. The validator reports no error of the shape exactly when the
  value starts with a letter, has 3 to 255 characters, and its remaining
  characters are letters, digits or one of \<^verbatim>\<open>- . _ + ~ %\<close>: the hyphen is
  allowed.
\<close>

theorem validateCloudIoTID_shape:
  "\<exists>es. validateCloudIoTID v k = Inr ([], es)
      \<and> (ErrNoMatch k v CloudIoTIdRegex \<notin> set es \<longleftrightarrow> cloud_iot_shape v)"
  by (simp add: validateCloudIoTID_eq)

theorem validateCloudIoTID_shape_witness:
  "cloud_iot_shape ''a-b''
   \<and> (\<exists>es. validateCloudIoTID ''a-b'' ''id'' = Inr ([], es)
          \<and> ErrNoMatch ''id'' ''a-b'' CloudIoTIdRegex \<notin> set es)
   \<and> \<not> cloud_iot_shape ''ab''
   \<and> (\<exists>es. validateCloudIoTID ''ab'' ''id'' = Inr ([], es)
          \<and> ErrNoMatch ''id'' ''ab'' CloudIoTIdRegex \<in> set es)"
proof -
  have a: "cloud_iot_shape ''a-b''"
    by (simp add: cloud_iot_shape_def id_rest_def letter_def lowercase_letter_def)
  have b: "\<not> cloud_iot_shape ''ab''"
    by (simp add: cloud_iot_shape_def)
  show ?thesis
    using validateCloudIoTID_shape [of "''a-b''" "''id''"]
          validateCloudIoTID_shape [of "''ab''" "''id''"]
    by (simp add: a b)
qed

text \<open>
  C7 as written leaves the hyphen out: \<^verbatim>\<open>a-b\<close> has a character outside the
  listed ones, and the validator reports no error for it.
\<close>

theorem validateCloudIoTID_hyphen_counterexample:
  "\<not> cloud_iot_shape_as_written ''a-b'' \<and> validateCloudIoTID ''a-b'' ''id'' = Inr ([], [])"
  by (simp add: validateCloudIoTID_eq cloud_iot_shape_as_written_def id_rest_as_written_def
        cloud_iot_shape_def reserved_prefix_def id_rest_def letter_def
        lowercase_letter_def uppercase_letter_def decimal_digit_def)

subsection \<open>The time validator\<close>

lemma digit_val_le: "is_digit c \<Longrightarrow> digit_val c \<le> 9"
  unfolding is_digit_def digit_val_def by arith

lemma ParseUint_two:
  "ParseUint [a, b] =
     (if decimal_digit a \<and> decimal_digit b then Some (10 * digit_val a + digit_val b) else None)"
proof (cases "is_digit a \<and> is_digit b")
  case True
  then have "digit_val a \<le> 9" "digit_val b \<le> 9"
    by (simp_all add: digit_val_le)
  then have "\<not> digit_val a > 2 ^ 64 - 1" "\<not> digit_val a * 10 + digit_val b > 2 ^ 64 - 1"
    by simp_all
  then show ?thesis
    using True by (simp add: ParseUint_def is_digit_iff Let_def mult.commute)
next
  case False
  then show ?thesis
    by (auto simp: ParseUint_def is_digit_iff Let_def)
qed

lemma length_5: "length s = 5 \<Longrightarrow> \<exists>a b c d e. s = [a, b, c, d, e]"
  by (auto simp: eval_nat_numeral length_Suc_conv)

lemma take_2_of_5: "length s = 5 \<Longrightarrow> take 2 s = [s ! 0, s ! 1]"
  using length_5 [of s] by auto

lemma drop_3_of_5: "length s = 5 \<Longrightarrow> drop 3 s = [s ! 3, s ! 4]"
  using length_5 [of s] by auto

text \<open>
  C5. The time validator returns no error exactly when the value has five
  characters with a colon at index 2, its first two characters are decimal
  digits of a number from 0 to 23 and its last two characters decimal digits
  of a number from 0 to 59. The three conditions are checked in this order, and
  the first that fails gives the one error of the result.
\<close>

theorem validateRFC3339Time_checks:
  "\<exists>es. validateRFC3339Time time k = Inr ([], es)
      \<and> (es = [] \<longleftrightarrow> time_format time \<and> time_hour time \<and> time_minute time)
      \<and> es = (if \<not> time_format time then [ErrTimeFormat k time]
              else if \<not> time_hour time then [ErrTimeHour k time]
              else if \<not> time_minute time then [ErrTimeMinute k time]
              else [])"
proof (cases "time_format time")
  case False
  then show ?thesis
    by (auto simp: validateRFC3339Time_def time_format_def)
next
  case True
  then have l: "length time = 5" and c: "time ! 2 = CHR '':''"
    by (simp_all add: time_format_def)
  have h: "ParseUint (take 2 time) =
             (if decimal_digit (time ! 0) \<and> decimal_digit (time ! 1)
              then Some (10 * digit_val (time ! 0) + digit_val (time ! 1)) else None)"
    by (simp only: take_2_of_5 [OF l] ParseUint_two)
  have m: "ParseUint (drop 3 time) =
             (if decimal_digit (time ! 3) \<and> decimal_digit (time ! 4)
              then Some (10 * digit_val (time ! 3) + digit_val (time ! 4)) else None)"
    by (simp only: drop_3_of_5 [OF l] ParseUint_two)
  show ?thesis
    unfolding validateRFC3339Time_def h m
    using True l c
    by (auto simp: time_hour_def time_minute_def two_digits_def digit_val_def)
qed

theorem validateRFC3339Time_checks_witness:
  "validateRFC3339Time ''23:59'' ''start_time'' = Inr ([], [])
   \<and> validateRFC3339Time ''24:00'' ''start_time'' = Inr ([], [ErrTimeHour ''start_time'' ''24:00''])
   \<and> validateRFC3339Time ''12:60'' ''start_time'' = Inr ([], [ErrTimeMinute ''start_time'' ''12:60''])
   \<and> validateRFC3339Time ''1:30'' ''start_time'' = Inr ([], [ErrTimeFormat ''start_time'' ''1:30''])
   \<and> validateRFC3339Time ''99:99'' ''start_time'' = Inr ([], [ErrTimeHour ''start_time'' ''99:99''])"
  using validateRFC3339Time_checks [of "''23:59''" "''start_time''"]
        validateRFC3339Time_checks [of "''24:00''" "''start_time''"]
        validateRFC3339Time_checks [of "''12:60''" "''start_time''"]
        validateRFC3339Time_checks [of "''1:30''" "''start_time''"]
        validateRFC3339Time_checks [of "''99:99''" "''start_time''"]
  by (simp add: time_format_def time_hour_def time_minute_def two_digits_def decimal_digit_def)

subsection \<open>Parsing the constants\<close>

lemma CIDRMask_loop_unfold:
  "0 < l \<Longrightarrow> CIDRMask_loop n l =
     (if n \<ge> 8 then 0xff # CIDRMask_loop (n - 8) (l - 1)
      else NOT (drop_bit n 0xff) # CIDRMask_loop 0 (l - 1))"
  by (cases l) auto

lemmas net_eval = ParseCIDR_def parseIPv4_def parseIPv4_loop.simps dtoi_def is_digit_def
  digit_val_def big_def IPv4len_def IPv6len_def IPv4_def v4InV6Prefix_def CIDRMask_def
  CIDRMask_loop_unfold IP_Mask_def Let_def upt_rec

lemma parse_10:
  "ParseCIDR p6 ''10.0.0.0/8'' = Inr (IPv4 10 0 0 0, \<lparr>IP = [10, 0, 0, 0], Mask = [255, 0, 0, 0]\<rparr>)"
  by (simp add: net_eval)

lemma parse_172:
  "ParseCIDR p6 ''172.16.0.0/12'' =
     Inr (IPv4 172 16 0 0, \<lparr>IP = [172, 16, 0, 0], Mask = [255, 240, 0, 0]\<rparr>)"
  by (simp add: net_eval)

lemma parse_192:
  "ParseCIDR p6 ''192.168.0.0/16'' =
     Inr (IPv4 192 168 0 0, \<lparr>IP = [192, 168, 0, 0], Mask = [255, 255, 0, 0]\<rparr>)"
  by (simp add: net_eval)

subsection \<open>Containment\<close>

lemma To4_cases: "To4 ip = [] \<or> length (To4 ip) = 4"
  by (simp add: To4_def IPv4len_def IPv6len_def)

lemma To4_nil: "To4 ip = [] \<Longrightarrow> length ip \<noteq> 4"
  by (auto simp: To4_def IPv4len_def IPv6len_def)

lemma length_4: "length s = 4 \<Longrightarrow> \<exists>a b c d. s = [a, b, c, d]"
  by (auto simp: eval_nat_numeral length_Suc_conv)

lemma Contains_v4:
  "Contains \<lparr>IP = [n0, n1, n2, n3], Mask = [m0, m1, m2, m3]\<rparr> ip \<longleftrightarrow>
     (\<exists>a b c d. To4 ip = [a, b, c, d]
        \<and> n0 AND m0 = a AND m0 \<and> n1 AND m1 = b AND m1
        \<and> n2 AND m2 = c AND m2 \<and> n3 AND m3 = d AND m3)"
proof -
  have nn: "networkNumberAndMask \<lparr>IP = [n0, n1, n2, n3], Mask = [m0, m1, m2, m3]\<rparr>
              = ([n0, n1, n2, n3], [m0, m1, m2, m3])"
    by (simp add: networkNumberAndMask_def To4_def IPv4len_def IPv6len_def)
  show ?thesis
  proof (cases "To4 ip = []")
    case True
    then show ?thesis
      using To4_nil [OF True] by (simp add: Contains_def nn)
  next
    case False
    then have "length (To4 ip) = 4" using To4_cases [of ip] by simp
    then obtain a b c d where t: "To4 ip = [a, b, c, d]"
      using length_4 by blast
    show ?thesis
      by (simp add: Contains_def nn t upt_rec)
  qed
qed

lemma byte_all: "(\<forall>b::8 word. P b) \<longleftrightarrow> list_all (\<lambda>n. P (of_nat n)) [0 ..< 256]"
proof
  assume "\<forall>b. P b"
  then show "list_all (\<lambda>n. P (of_nat n)) [0 ..< 256]"
    by (simp add: list_all_iff)
next
  assume h: "list_all (\<lambda>n. P (of_nat n)) [0 ..< 256]"
  show "\<forall>b. P b"
  proof
    fix b :: "8 word"
    have "unat b < 256" using unsigned_less [of b] by simp
    then have m: "unat b \<in> set [0 ..< 256]" by simp
    from h have "\<forall>n \<in> set [0 ..< 256]. P (word_of_nat n)" by (simp only: list_all_iff)
    from this m have "P (word_of_nat (unat b))" by (rule bspec)
    then show "P b" by simp
  qed
qed

lemma and_240: "\<forall>b :: 8 word. (16 = b AND 240) = (unat b div 16 = 1)"
  by (subst byte_all) (simp add: upt_rec)

lemma and_255: "(x :: 8 word) AND 255 = x"
proof -
  have m: "(255 :: 8 word) = mask 8" by (simp add: mask_eq_exp_minus_1)
  have "take_bit 8 x = x" by (rule take_bit_word_eq_self) simp
  then have "x AND mask 8 = x" by (simp only: take_bit_eq_mask)
  then show ?thesis by (simp only: m)
qed

lemma byte_eq_numeral: "(numeral k :: 8 word) = a \<longleftrightarrow> unat (numeral k :: 8 word) = unat a"
  by (simp add: word_unat_eq_iff)

lemma unat_byte: "unat (b :: 8 word) < 256"
  using unsigned_less [of b] by simp

subsection \<open>The three blocks\<close>

lemma div_high: "r < K \<Longrightarrow> (q * K + r) div K = (q::nat)"
  by simp

lemma ipv4_number_4: "ipv4_number [a, b, c, d] = ((a * 256 + b) * 256 + c) * 256 + d"
  by (simp add: ipv4_number_def)

lemma n8:
  assumes "b < 256" "c < 256" "d < 256"
  shows "ipv4_number [a, b, c, d] div 16777216 = a"
proof -
  have r: "(b * 256 + c) * 256 + d < 16777216" using assms by simp
  have "((a * 256 + b) * 256 + c) * 256 + d = a * 16777216 + ((b * 256 + c) * 256 + d)"
    by simp
  then show ?thesis
    unfolding ipv4_number_4 using div_high [OF r, of a] by simp
qed

lemma n12:
  assumes "b < 256" "c < 256" "d < 256"
  shows "ipv4_number [a, b, c, d] div 1048576 = a * 16 + b div 16"
proof -
  define q where "q = b div 16"
  define r where "r = b mod 16"
  have b: "b = q * 16 + r" by (simp add: q_def r_def)
  have "r < 16" by (simp add: r_def)
  then have "r * 256 \<le> 15 * 256" by simp
  then have r: "(r * 256 + c) * 256 + d < 1048576" using assms by simp
  have "((a * 256 + (q * 16 + r)) * 256 + c) * 256 + d
      = (a * 16 + q) * 1048576 + ((r * 256 + c) * 256 + d)"
    by (simp add: algebra_simps)
  then have "(((a * 256 + (q * 16 + r)) * 256 + c) * 256 + d) div 1048576 = a * 16 + q"
    using div_high [OF r, of "a * 16 + q"] by simp
  then show ?thesis unfolding ipv4_number_4 b [symmetric] by (simp add: q_def)
qed

lemma n16:
  assumes "c < 256" "d < 256"
  shows "ipv4_number [a, b, c, d] div 65536 = a * 256 + b"
proof -
  have r: "c * 256 + d < 65536" using assms by simp
  have "((a * 256 + b) * 256 + c) * 256 + d = (a * 256 + b) * 65536 + (c * 256 + d)"
    by simp
  then show ?thesis
    unfolding ipv4_number_4 using div_high [OF r, of "a * 256 + b"] by simp
qed

lemma l12: "q < 16 \<Longrightarrow> (x * 16 + q = 2753) = (x = 172 \<and> q = (1::nat))"
  by arith

lemma l16: "y < 256 \<Longrightarrow> (x * 256 + y = 49320) = (x = 192 \<and> y = (168::nat))"
  by arith

lemma inside_block_nil: "To4 ip = [] \<Longrightarrow> \<not> inside_block ip base bits"
  by (simp add: inside_block_def)

lemma inside_10:
  assumes "To4 ip = [a, b, c, d]"
  shows "inside_block ip [10, 0, 0, 0] 8 \<longleftrightarrow> unat a = 10"
proof -
  have "ipv4_number [unat a, unat b, unat c, unat d] div 16777216 = unat a"
    by (rule n8) (rule unat_byte)+
  moreover have "ipv4_number [10, 0, 0, 0] div 16777216 = 10"
    by (rule n8) simp_all
  ultimately show ?thesis
    by (simp add: inside_block_def assms)
qed

lemma inside_172:
  assumes "To4 ip = [a, b, c, d]"
  shows "inside_block ip [172, 16, 0, 0] 12 \<longleftrightarrow> unat a = 172 \<and> unat b div 16 = 1"
proof -
  have "ipv4_number [unat a, unat b, unat c, unat d] div 1048576 = unat a * 16 + unat b div 16"
    by (rule n12) (rule unat_byte)+
  moreover have "ipv4_number [172, 16, 0, 0] div 1048576 = 2753"
    by (simp add: ipv4_number_4)
  moreover have "unat b div 16 < 16"
    using unat_byte [of b] by simp
  ultimately show ?thesis
    by (simp add: inside_block_def assms l12)
qed

lemma inside_192:
  assumes "To4 ip = [a, b, c, d]"
  shows "inside_block ip [192, 168, 0, 0] 16 \<longleftrightarrow> unat a = 192 \<and> unat b = 168"
proof -
  have "ipv4_number [unat a, unat b, unat c, unat d] div 65536 = unat a * 256 + unat b"
    by (rule n16) (rule unat_byte)+
  moreover have "ipv4_number [192, 168, 0, 0] div 65536 = 49320"
    by (simp add: ipv4_number_4)
  ultimately show ?thesis
    by (simp add: inside_block_def assms l16 unat_byte)
qed

lemma To4_four: "To4 ip \<noteq> [] \<Longrightarrow> \<exists>a b c d. To4 ip = [a, b, c, d]"
  using To4_cases [of ip] length_4 [of "To4 ip"] by blast

lemma Contains_10:
  "Contains \<lparr>IP = [10, 0, 0, 0], Mask = [255, 0, 0, 0]\<rparr> ip \<longleftrightarrow> inside_block ip [10, 0, 0, 0] 8"
proof (cases "To4 ip = []")
  case True
  then show ?thesis by (simp add: Contains_v4 inside_block_nil)
next
  case False
  then obtain a b c d where t: "To4 ip = [a, b, c, d]"
    using To4_four by blast
  have "Contains \<lparr>IP = [10, 0, 0, 0], Mask = [255, 0, 0, 0]\<rparr> ip \<longleftrightarrow> unat a = 10"
    by (simp add: Contains_v4 t and_255 byte_eq_numeral)
  then show ?thesis by (simp only: inside_10 [OF t])
qed

lemma Contains_172:
  "Contains \<lparr>IP = [172, 16, 0, 0], Mask = [255, 240, 0, 0]\<rparr> ip
     \<longleftrightarrow> inside_block ip [172, 16, 0, 0] 12"
proof (cases "To4 ip = []")
  case True
  then show ?thesis by (simp add: Contains_v4 inside_block_nil)
next
  case False
  then obtain a b c d where t: "To4 ip = [a, b, c, d]"
    using To4_four by blast
  have "Contains \<lparr>IP = [172, 16, 0, 0], Mask = [255, 240, 0, 0]\<rparr> ip
          \<longleftrightarrow> unat a = 172 \<and> unat b div 16 = 1"
    using and_240 by (simp add: Contains_v4 t and_255 byte_eq_numeral)
  then show ?thesis by (simp only: inside_172 [OF t])
qed

lemma Contains_192:
  "Contains \<lparr>IP = [192, 168, 0, 0], Mask = [255, 255, 0, 0]\<rparr> ip
     \<longleftrightarrow> inside_block ip [192, 168, 0, 0] 16"
proof (cases "To4 ip = []")
  case True
  then show ?thesis by (simp add: Contains_v4 inside_block_nil)
next
  case False
  then obtain a b c d where t: "To4 ip = [a, b, c, d]"
    using To4_four by blast
  have "Contains \<lparr>IP = [192, 168, 0, 0], Mask = [255, 255, 0, 0]\<rparr> ip
          \<longleftrightarrow> unat a = 192 \<and> unat b = 168"
    by (simp add: Contains_v4 t and_255 byte_eq_numeral)
  then show ?thesis by (simp only: inside_192 [OF t])
qed

lemma rfc1918_loop_eq: "rfc1918_loop p6 rfc1918Networks ip = Inr (inside_rfc1918 ip)"
  by (simp add: rfc1918Networks_def parse_10 parse_172 parse_192 Contains_10 Contains_172
        Contains_192 inside_rfc1918_def)

subsection \<open>The network validators\<close>

lemmas addr_eval = address_def CIDRNetwork_def prefixLength_def inside_rfc1918_def
  inside_block_def ipv4_number_def To4_def

text \<open>
  C1. When the generic check of the CIDR and of the range of its prefix length
  reports no error, \<open>validateRFC1918Network\<close> returns no error exactly when the
  address of the value lies inside 10.0.0.0/8, 172.16.0.0/12 or 192.168.0.0/16,
  and otherwise exactly one error, which says that the value is not an RFC1918
  CIDR. The test is on the address, whatever the prefix length of the value.
\<close>

theorem validateRFC1918Network_membership:
  assumes "snd (cidrNetwork min' max' v k) = []"
  shows "validateRFC1918Network cidrNetwork parseIPv6 min' max' v k =
           Inr (fst (cidrNetwork min' max' v k),
                if inside_rfc1918 (address parseIPv6 v) then [] else [ErrNotRFC1918 k v])"
proof -
  obtain s es where g: "cidrNetwork min' max' v k = (s, es)"
    by (cases "cidrNetwork min' max' v k")
  with assms have e: "es = []" by simp
  show ?thesis
    by (simp add: validateRFC1918Network_def g e rfc1918_loop_eq address_def)
qed

theorem validateRFC1918Network_membership_witness:
  "snd (CIDRNetwork (\<lambda>s. []) 16 24 ''10.0.0.0/20'' ''range'') = []
   \<and> validateRFC1918Network (CIDRNetwork (\<lambda>s. [])) (\<lambda>s. []) 16 24 ''10.0.0.0/20'' ''range''
       = Inr ([], [])
   \<and> snd (CIDRNetwork (\<lambda>s. []) 16 24 ''8.8.8.0/24'' ''range'') = []
   \<and> validateRFC1918Network (CIDRNetwork (\<lambda>s. [])) (\<lambda>s. []) 16 24 ''8.8.8.0/24'' ''range''
       = Inr ([], [ErrNotRFC1918 ''range'' ''8.8.8.0/24''])
   \<and> snd (CIDRNetwork (\<lambda>s. []) 16 24 ''172.31.255.0/24'' ''range'') = []
   \<and> validateRFC1918Network (CIDRNetwork (\<lambda>s. [])) (\<lambda>s. []) 16 24 ''172.31.255.0/24'' ''range''
       = Inr ([], [])
   \<and> snd (CIDRNetwork (\<lambda>s. []) 16 24 ''172.32.0.0/24'' ''range'') = []
   \<and> validateRFC1918Network (CIDRNetwork (\<lambda>s. [])) (\<lambda>s. []) 16 24 ''172.32.0.0/24'' ''range''
       = Inr ([], [ErrNotRFC1918 ''range'' ''172.32.0.0/24''])"
proof -
  have a2: "snd (CIDRNetwork (\<lambda>s. []) 16 24 ''172.31.255.0/24'' ''range'') = []"
    by (simp add: addr_eval net_eval)
  have b2: "snd (CIDRNetwork (\<lambda>s. []) 16 24 ''172.32.0.0/24'' ''range'') = []"
    by (simp add: addr_eval net_eval)
  have c2: "inside_rfc1918 (address (\<lambda>s. []) ''172.31.255.0/24'')"
    by (simp add: addr_eval net_eval)
  have d2: "\<not> inside_rfc1918 (address (\<lambda>s. []) ''172.32.0.0/24'')"
    by (simp add: addr_eval net_eval)
  have e2: "fst (CIDRNetwork (\<lambda>s. []) 16 24 ''172.31.255.0/24'' ''range'') = []"
    by (simp add: addr_eval net_eval)
  have f2: "fst (CIDRNetwork (\<lambda>s. []) 16 24 ''172.32.0.0/24'' ''range'') = []"
    by (simp add: addr_eval net_eval)
  have a: "snd (CIDRNetwork (\<lambda>s. []) 16 24 ''10.0.0.0/20'' ''range'') = []"
    by (simp add: addr_eval net_eval)
  have b: "snd (CIDRNetwork (\<lambda>s. []) 16 24 ''8.8.8.0/24'' ''range'') = []"
    by (simp add: addr_eval net_eval)
  have c: "inside_rfc1918 (address (\<lambda>s. []) ''10.0.0.0/20'')"
    by (simp add: addr_eval net_eval)
  have d: "\<not> inside_rfc1918 (address (\<lambda>s. []) ''8.8.8.0/24'')"
    by (simp add: addr_eval net_eval)
  have e: "fst (CIDRNetwork (\<lambda>s. []) 16 24 ''10.0.0.0/20'' ''range'') = []"
    by (simp add: addr_eval net_eval)
  have f: "fst (CIDRNetwork (\<lambda>s. []) 16 24 ''8.8.8.0/24'' ''range'') = []"
    by (simp add: addr_eval net_eval)
  show ?thesis
    using validateRFC1918Network_membership
            [of "CIDRNetwork (\<lambda>s. [])" 16 24 "''10.0.0.0/20''" "''range''" "\<lambda>s. []"]
          validateRFC1918Network_membership
            [of "CIDRNetwork (\<lambda>s. [])" 16 24 "''8.8.8.0/24''" "''range''" "\<lambda>s. []"]
          validateRFC1918Network_membership
            [of "CIDRNetwork (\<lambda>s. [])" 16 24 "''172.31.255.0/24''" "''range''" "\<lambda>s. []"]
          validateRFC1918Network_membership
            [of "CIDRNetwork (\<lambda>s. [])" 16 24 "''172.32.0.0/24''" "''range''" "\<lambda>s. []"]
    by (simp add: a b c d e f a2 b2 c2 d2 e2 f2)
qed

text \<open>
  C2. When the generic check reports an error, \<open>validateRFC1918Network\<close> returns
  what the generic check returned and nothing more: the address is not parsed
  and no error about RFC1918 is added.
\<close>

theorem validateRFC1918Network_short_circuit:
  assumes "snd (cidrNetwork min' max' v k) \<noteq> []"
  shows "validateRFC1918Network cidrNetwork parseIPv6 min' max' v k = Inr (cidrNetwork min' max' v k)"
proof -
  obtain s es where g: "cidrNetwork min' max' v k = (s, es)"
    by (cases "cidrNetwork min' max' v k")
  with assms have e: "es \<noteq> []" by simp
  show ?thesis
    by (simp add: validateRFC1918Network_def g e)
qed

theorem validateRFC1918Network_short_circuit_witness:
  "snd (CIDRNetwork (\<lambda>s. []) 16 24 ''10.0.0.0/8'' ''range'') \<noteq> []
   \<and> validateRFC1918Network (CIDRNetwork (\<lambda>s. [])) (\<lambda>s. []) 16 24 ''10.0.0.0/8'' ''range''
       = Inr ([], [LibraryError ''expected a network CIDR with significant bits in range''])
   \<and> snd (CIDRNetwork (\<lambda>s. []) 16 24 ''8.8.8.8'' ''range'') \<noteq> []
   \<and> validateRFC1918Network (CIDRNetwork (\<lambda>s. [])) (\<lambda>s. []) 16 24 ''8.8.8.8'' ''range''
       = Inr ([], [LibraryError ''expected a valid CIDR''])"
proof -
  have a: "CIDRNetwork (\<lambda>s. []) 16 24 ''10.0.0.0/8'' ''range''
             = ([], [LibraryError ''expected a network CIDR with significant bits in range''])"
    by (simp add: addr_eval net_eval)
  have b: "CIDRNetwork (\<lambda>s. []) 16 24 ''8.8.8.8'' ''range'' = ([], [LibraryError ''expected a valid CIDR''])"
    by (simp add: addr_eval net_eval)
  have a': "snd (CIDRNetwork (\<lambda>s. []) 16 24 ''10.0.0.0/8'' ''range'') \<noteq> []"
    by (simp add: a)
  have b': "snd (CIDRNetwork (\<lambda>s. []) 16 24 ''8.8.8.8'' ''range'') \<noteq> []"
    by (simp add: b)
  show ?thesis
    using validateRFC1918Network_short_circuit
            [of "CIDRNetwork (\<lambda>s. [])" 16 24 "''10.0.0.0/8''" "''range''" "\<lambda>s. []"]
          validateRFC1918Network_short_circuit
            [of "CIDRNetwork (\<lambda>s. [])" 16 24 "''8.8.8.8''" "''range''" "\<lambda>s. []"]
    using a' b' by (simp add: a b)
qed

text \<open>
  C9. \<open>validateIpCidrRange\<close> returns no error exactly when the value parses as
  a CIDR; when it does not parse, the result is one error that carries the
  error of the parser. Nothing but the parse decides: every prefix length that
  parses is accepted.
\<close>

theorem validateIpCidrRange_parse:
  "\<exists>es. validateIpCidrRange parseIPv6 v k = Inr ([], es)
      \<and> (es = [] \<longleftrightarrow> (\<exists>r. ParseCIDR parseIPv6 v = Inr r))
      \<and> es = (case ParseCIDR parseIPv6 v of Inl err \<Rightarrow> [ErrNotIPCIDR k err] | Inr r \<Rightarrow> [])"
  by (cases "ParseCIDR parseIPv6 v") (simp_all add: validateIpCidrRange_def)

theorem validateIpCidrRange_parse_witness:
  "validateIpCidrRange (\<lambda>s. []) ''10.0.0.0/0'' ''range'' = Inr ([], [])
   \<and> validateIpCidrRange (\<lambda>s. []) ''8.8.8.8/32'' ''range'' = Inr ([], [])
   \<and> validateIpCidrRange (\<lambda>s. []) ''10.0.0.0/33'' ''range''
       = Inr ([], [ErrNotIPCIDR ''range'' (ParseError ''CIDR address'' ''10.0.0.0/33'')])
   \<and> validateIpCidrRange (\<lambda>s. []) ''10.0.0.0'' ''range''
       = Inr ([], [ErrNotIPCIDR ''range'' (ParseError ''CIDR address'' ''10.0.0.0'')])"
proof -
  have a: "\<exists>r. ParseCIDR (\<lambda>s. []) ''10.0.0.0/0'' = Inr r"
    by (simp add: net_eval)
  have b: "\<exists>r. ParseCIDR (\<lambda>s. []) ''8.8.8.8/32'' = Inr r"
    by (simp add: net_eval)
  have c: "ParseCIDR (\<lambda>s. []) ''10.0.0.0/33'' = Inl (ParseError ''CIDR address'' ''10.0.0.0/33'')"
    by (simp add: net_eval)
  have d: "ParseCIDR (\<lambda>s. []) ''10.0.0.0'' = Inl (ParseError ''CIDR address'' ''10.0.0.0'')"
    by (simp add: net_eval)
  show ?thesis
    using validateIpCidrRange_parse [of "\<lambda>s. []" "''10.0.0.0/0''" "''range''"]
          validateIpCidrRange_parse [of "\<lambda>s. []" "''8.8.8.8/32''" "''range''"]
          validateIpCidrRange_parse [of "\<lambda>s. []" "''10.0.0.0/33''" "''range''"]
          validateIpCidrRange_parse [of "\<lambda>s. []" "''10.0.0.0''" "''range''"]
    using a b by (auto simp: c d)
qed

subsection \<open>Warnings\<close>






end
